theory Spec2Isabelle
  imports Complex_Main "HOL-Library.AList"
begin

section \<open>JavaScript values\<close>

text \<open>
  The import pipeline works on rows typed \<^verbatim>\<open>any\<close>: whatever the CSV, spreadsheet and
  JSON libraries hand over. A value is therefore one of the JavaScript value kinds. A
  string is a list of characters (code units below 256); an object is the list of its own
  properties in insertion order, read with \<open>map_of\<close>. A number is a double: only whether
  it is zero or NaN is ever observed here.
\<close>

datatype number = NaN | Infinite bool | Finite rat

datatype jsval =
    JUndefined
  | JNull
  | JBool bool
  | JNum number
  | JStr string
  | JArr "jsval list"
  | JObj "(string \<times> jsval) list"

datatype js_error = TypeError | LibError string

text \<open>Truthiness, as \<^verbatim>\<open>||\<close>, \<^verbatim>\<open>&&\<close>, \<^verbatim>\<open>!\<close> and \<^verbatim>\<open>if\<close> read a value.\<close>

fun truthy :: "jsval \<Rightarrow> bool" where
  "truthy JUndefined = False"
| "truthy JNull = False"
| "truthy (JBool b) = b"
| "truthy (JNum NaN) = False"
| "truthy (JNum (Infinite s)) = True"
| "truthy (JNum (Finite q)) = (q \<noteq> 0)"
| "truthy (JStr s) = (s \<noteq> [])"
| "truthy (JArr xs) = True"
| "truthy (JObj kvs) = True"

text \<open>\<^verbatim>\<open>a || b\<close>: the left operand when it is truthy, the right one otherwise.\<close>

definition js_or :: "jsval \<Rightarrow> jsval \<Rightarrow> jsval" where
  "js_or a b = (if truthy a then a else b)"

text \<open>
  \<^verbatim>\<open>item.key\<close> on a value that is neither \<^verbatim>\<open>null\<close> nor \<^verbatim>\<open>undefined\<close> (on those the
  access throws a TypeError, which the callers below check first). An object answers
  with its own property or \<^verbatim>\<open>undefined\<close>. Every other value answers \<^verbatim>\<open>undefined\<close>: the
  program reads only the names \<^verbatim>\<open>id\<close> and the header aliases below, none of which the
  String, Number, Boolean, Array or Object prototypes define.
\<close>

fun get_prop :: "jsval \<Rightarrow> string \<Rightarrow> jsval" where
  "get_prop (JObj kvs) k = (case map_of kvs k of Some v \<Rightarrow> v | None \<Rightarrow> JUndefined)"
| "get_prop v k = JUndefined"

definition nullish :: "jsval \<Rightarrow> bool" where
  "nullish v = (v = JNull \<or> v = JUndefined)"

section \<open>The field normalizer: \<^verbatim>\<open>processImportedData\<close>\<close>

record imported_contact =
  name :: jsval
  email :: jsval
  phone :: jsval

datatype import_error =
    CsvParsingError string
  | ErrorProcessingFile js_error
  | ErrorProcessingData js_error
  | ErrorReadingFile
  | UnsupportedFormat
  | NoValidContacts
  | FailedToImport string

record import_state =
  importedContacts :: "imported_contact list"
  importLoading :: bool
  importError :: "import_error option"

text \<open>
  The callback of \<^verbatim>\<open>data.map\<close>:
  \<^verbatim>\<open>
  const name = item.name || item.Name || item.NAME || item.contact || item.Contact || '';
  const email = item.email || item.Email || item.EMAIL || '';
  const phone = item.phone || item.Phone || item.PHONE || item.mobile || item.Mobile
             || item.whatsapp || item.Whatsapp || '';
  return { name, email, phone };
  \<close>
  \<^verbatim>\<open>||\<close> associates to the left. The first property access throws on \<^verbatim>\<open>null\<close> and
  \<^verbatim>\<open>undefined\<close>.
\<close>

definition map_item :: "jsval \<Rightarrow> js_error + imported_contact" where
  "map_item item =
     (if nullish item then Inl TypeError
      else Inr \<lparr>
        name = js_or (js_or (js_or (js_or (js_or (get_prop item ''name'') (get_prop item ''Name''))
                 (get_prop item ''NAME'')) (get_prop item ''contact'')) (get_prop item ''Contact''))
                 (JStr ''''),
        email = js_or (js_or (js_or (get_prop item ''email'') (get_prop item ''Email''))
                 (get_prop item ''EMAIL'')) (JStr ''''),
        phone = js_or (js_or (js_or (js_or (js_or (js_or (js_or (get_prop item ''phone'')
                 (get_prop item ''Phone'')) (get_prop item ''PHONE'')) (get_prop item ''mobile''))
                 (get_prop item ''Mobile'')) (get_prop item ''whatsapp'')) (get_prop item ''Whatsapp''))
                 (JStr '''') \<rparr>)"

text \<open>\<^verbatim>\<open>data.map(callback)\<close> on the elements of an array: the first throw ends it.\<close>

fun map_items :: "jsval list \<Rightarrow> js_error + imported_contact list" where
  "map_items [] = Inr []"
| "map_items (x # xs) =
     (case map_item x of
        Inl e \<Rightarrow> Inl e
      | Inr c \<Rightarrow> (case map_items xs of Inl e \<Rightarrow> Inl e | Inr cs \<Rightarrow> Inr (c # cs)))"

text \<open>The predicate of \<^verbatim>\<open>.filter\<close>: \<^verbatim>\<open>contact.name && (contact.email || contact.phone)\<close>.\<close>

definition accepted :: "imported_contact \<Rightarrow> bool" where
  "accepted contact = (truthy (name contact) \<and> truthy (js_or (email contact) (phone contact)))"

text \<open>
  \<^verbatim>\<open>data.map(...).filter(...)\<close>. A value that is not an array has no callable \<^verbatim>\<open>map\<close>
  (or, for \<^verbatim>\<open>null\<close> and \<^verbatim>\<open>undefined\<close>, no properties at all): a TypeError.
\<close>

fun processedContacts :: "jsval \<Rightarrow> js_error + imported_contact list" where
  "processedContacts (JArr items) =
     (case map_items items of Inl e \<Rightarrow> Inl e | Inr cs \<Rightarrow> Inr (filter accepted cs))"
| "processedContacts v = Inl TypeError"

text \<open>The \<^verbatim>\<open>try\<close>/\<^verbatim>\<open>catch\<close> around it, and the state it sets.\<close>

definition processImportedData :: "jsval \<Rightarrow> 'a import_state_scheme \<Rightarrow> 'a import_state_scheme" where
  "processImportedData data st =
     (case processedContacts data of
        Inr cs \<Rightarrow> st\<lparr>importedContacts := cs, importLoading := False\<rparr>
      | Inl e \<Rightarrow> st\<lparr>importError := Some (ErrorProcessingData e), importLoading := False\<rparr>)"

subsection \<open>The normalizer in the words of its description\<close>

text \<open>
  The first non-empty value found under an ordered list of keys, the empty string when
  there is none. A value counts as non-empty when it is truthy: for a string, when it is
  not \<open>''''\<close>; a missing key, \<^verbatim>\<open>null\<close>, \<^verbatim>\<open>false\<close>, zero and NaN count as empty.
\<close>

definition first_nonempty :: "jsval \<Rightarrow> string list \<Rightarrow> jsval" where
  "first_nonempty item keys =
     (case find truthy (map (get_prop item) keys) of Some v \<Rightarrow> v | None \<Rightarrow> JStr '''')"

section \<open>Strings\<close>

text \<open>
  \<^verbatim>\<open>s.split(sep)\<close> for a separator that matches exactly one character (the literal
  \<^verbatim>\<open>'\n'\<close>, the literal \<^verbatim>\<open>'.'\<close>, the class \<^verbatim>\<open>/[,\t]/\<close>): the pieces between the
  separators, always at least one piece, empty pieces kept.
\<close>

fun split_on :: "(char \<Rightarrow> bool) \<Rightarrow> string \<Rightarrow> string list" where
  "split_on sep [] = [[]]"
| "split_on sep (c # cs) =
     (if sep c then [] # split_on sep cs
      else (case split_on sep cs of
              [] \<Rightarrow> [[c]]
            | piece # pieces \<Rightarrow> (c # piece) # pieces))"

text \<open>
  White space and line terminators, as \<^verbatim>\<open>trim\<close> removes them: tab, line feed, vertical
  tab, form feed, carriage return, space and the no-break space (the others lie beyond
  the characters of this model).
\<close>

definition is_space :: "char \<Rightarrow> bool" where
  "is_space c = (c \<in> set [CHR 0x09, CHR 0x0A, CHR 0x0B, CHR 0x0C, CHR 0x0D, CHR 0x20, CHR 0xA0])"

definition trim :: "string \<Rightarrow> string" where
  "trim s = rev (dropWhile is_space (rev (dropWhile is_space s)))"

text \<open>
  \<^verbatim>\<open>toLowerCase\<close> on the characters of this model: the letters A to Z, and the Latin-1
  capitals from 0xC0 to 0xDE but for the multiplication sign 0xD7, move up by 32.
\<close>

definition lower_char :: "char \<Rightarrow> char" where
  "lower_char c =
     (let n = (of_char c :: nat)
      in if (65 \<le> n \<and> n \<le> 90) \<or> (192 \<le> n \<and> n \<le> 222 \<and> n \<noteq> 215)
         then char_of (n + 32) else c)"

definition toLowerCase :: "string \<Rightarrow> string" where
  "toLowerCase s = map lower_char s"

section \<open>The format sniffer and the parsers: \<^verbatim>\<open>onDrop\<close>\<close>

text \<open>
  A dropped file: its name, and what the file reader delivers for it as text and as a
  binary string (\<open>None\<close> when the read fails and \<^verbatim>\<open>onerror\<close> fires).
\<close>

record dropped_file =
  file_name :: string
  as_text :: "string option"
  as_binary :: "string option"

text \<open>
  The libraries are not part of this program and enter as parameters: the CSV parser
  (which calls \<^verbatim>\<open>complete\<close> with the rows, calls \<^verbatim>\<open>error\<close> with a message, or throws),
  the spreadsheet reader and its sheet-to-rows conversion, and \<^verbatim>\<open>JSON.parse\<close>.
\<close>

datatype papa_outcome = PapaComplete jsval | PapaError string | PapaThrows js_error

record 'w workbook =
  SheetNames :: "string list"
  Sheets :: "(string \<times> 'w) list"

record 'w parsers =
  papa_parse :: "string \<Rightarrow> papa_outcome"
  xlsx_read :: "string \<Rightarrow> js_error + 'w workbook"
  sheet_to_json :: "'w option \<Rightarrow> js_error + jsval"
  json_parse :: "string \<Rightarrow> js_error + jsval"

text \<open>\<^verbatim>\<open>file.name.split('.').pop()?.toLowerCase()\<close>; \<^verbatim>\<open>split\<close> never returns an empty array.\<close>

definition fileExtension :: "string \<Rightarrow> string" where
  "fileExtension fname = toLowerCase (last (split_on (\<lambda>c. c = CHR ''.'') fname))"

text \<open>
  \<^verbatim>\<open>obj[header] = value\<close> for a string value: a new own property goes last, an existing
  one keeps its place. The name \<^verbatim>\<open>__proto__\<close> reaches the prototype setter instead, which
  ignores a string.
\<close>

definition set_prop :: "(string \<times> jsval) list \<Rightarrow> string \<Rightarrow> jsval \<Rightarrow> (string \<times> jsval) list" where
  "set_prop obj k v = (if k = ''__proto__'' then obj else AList.update k v obj)"

text \<open>
  The body of \<^verbatim>\<open>lines.slice(1).map(line => ...)\<close>:
  \<^verbatim>\<open>
  const values = line.split(/[,\t]/);
  const obj: any = {};
  headers.forEach((header, index) => { obj[header] = values[index]?.trim() || ''; });
  return obj;
  \<close>
\<close>

definition is_delim :: "char \<Rightarrow> bool" where
  "is_delim c = (c = CHR '','' \<or> c = CHR 0x09)"

definition field_value :: "string list \<Rightarrow> nat \<Rightarrow> jsval" where
  "field_value values index =
     js_or (if index < length values then JStr (trim (values ! index)) else JUndefined)
           (JStr '''')"

definition line_to_obj :: "string list \<Rightarrow> string \<Rightarrow> jsval" where
  "line_to_obj headers line =
     (let values = split_on is_delim line
      in JObj (fold (\<lambda>(index, header) obj. set_prop obj header (field_value values index))
                 (enumerate 0 headers) []))"

text \<open>
  The \<^verbatim>\<open>txt\<close> branch up to the call of the normalizer:
  \<^verbatim>\<open>
  const lines = text.split('\n');
  const headers = lines[0].split(/[,\t]/).map(h => h.trim());
  parsedData = lines.slice(1).map(line => ...);
  \<close>
  \<^verbatim>\<open>lines[0]\<close> of an empty array would be \<^verbatim>\<open>undefined\<close> and the call on it a TypeError.
\<close>

definition parse_txt :: "string \<Rightarrow> js_error + jsval" where
  "parse_txt text =
     (case split_on (\<lambda>c. c = CHR 0x0A) text of
        [] \<Rightarrow> Inl TypeError
      | first_line # rest \<Rightarrow>
          (let headers = map trim (split_on is_delim first_line)
           in Inr (JArr (map (line_to_obj headers) rest))))"

text \<open>
  The component exists in a second copy (\<^verbatim>\<open>AppLayout.tsx\<close>), whose \<^verbatim>\<open>txt\<close> branch differs in
  its first line alone: the blank lines are dropped before anything else.
  \<^verbatim>\<open>
  const lines = text.split('\n').filter(line => line.trim());
  const headers = lines[0].split(/[,\t]/).map(h => h.trim());
  parsedData = lines.slice(1).map(line => ...);
  \<close>
  When no line is left, \<^verbatim>\<open>lines[0]\<close> is \<^verbatim>\<open>undefined\<close> and the call on it a TypeError.
\<close>

definition parse_txt_AppLayout :: "string \<Rightarrow> js_error + jsval" where
  "parse_txt_AppLayout text =
     (case filter (\<lambda>line. trim line \<noteq> []) (split_on (\<lambda>c. c = CHR 0x0A) text) of
        [] \<Rightarrow> Inl TypeError
      | first_line # rest \<Rightarrow>
          (let headers = map trim (split_on is_delim first_line)
           in Inr (JArr (map (line_to_obj headers) rest))))"

text \<open>The \<^verbatim>\<open>catch\<close> of \<^verbatim>\<open>fileReader.onload\<close>.\<close>

definition processing_failed :: "js_error \<Rightarrow> 'a import_state_scheme \<Rightarrow> 'a import_state_scheme" where
  "processing_failed e st = st\<lparr>importError := Some (ErrorProcessingFile e), importLoading := False\<rparr>"

definition unsupported :: "'a import_state_scheme \<Rightarrow> 'a import_state_scheme" where
  "unsupported st = st\<lparr>importError := Some UnsupportedFormat, importLoading := False\<rparr>"

text \<open>
  \<^verbatim>\<open>fileReader.onload\<close>: the chain of tests on the extension. In the spreadsheet branch
  \<^verbatim>\<open>workbook.SheetNames[0]\<close> of a workbook without sheets is \<^verbatim>\<open>undefined\<close>, and
  \<^verbatim>\<open>workbook.Sheets[undefined]\<close> reads the property named \<^verbatim>\<open>undefined\<close>.
\<close>

definition onload :: "'w parsers \<Rightarrow> string \<Rightarrow> string \<Rightarrow> 'a import_state_scheme \<Rightarrow> 'a import_state_scheme" where
  "onload env ext result st =
     (if ext = ''csv'' then
        (case papa_parse env result of
           PapaComplete parsedData \<Rightarrow> processImportedData parsedData st
         | PapaError message \<Rightarrow>
             st\<lparr>importError := Some (CsvParsingError message), importLoading := False\<rparr>
         | PapaThrows e \<Rightarrow> processing_failed e st)
      else if ext \<in> set [''xlsx'', ''xls''] then
        (case xlsx_read env result of
           Inl e \<Rightarrow> processing_failed e st
         | Inr wb \<Rightarrow>
             (let sheetName = (case SheetNames wb of [] \<Rightarrow> ''undefined'' | n # _ \<Rightarrow> n);
                  worksheet = map_of (Sheets wb) sheetName
              in case sheet_to_json env worksheet of
                   Inl e \<Rightarrow> processing_failed e st
                 | Inr parsedData \<Rightarrow> processImportedData parsedData st))
      else if ext = ''json'' then
        (case json_parse env result of
           Inl e \<Rightarrow> processing_failed e st
         | Inr parsedData \<Rightarrow> processImportedData parsedData st)
      else if ext = ''txt'' then
        (case parse_txt result of
           Inl e \<Rightarrow> processing_failed e st
         | Inr parsedData \<Rightarrow> processImportedData parsedData st)
      else unsupported st)"

text \<open>\<^verbatim>\<open>fileReader.onerror\<close>.\<close>

definition onerror :: "'a import_state_scheme \<Rightarrow> 'a import_state_scheme" where
  "onerror st = st\<lparr>importError := Some ErrorReadingFile, importLoading := False\<rparr>"

text \<open>
  \<^verbatim>\<open>onDrop\<close>: nothing without a file; otherwise the error is cleared, the loading flag
  set, and the second chain of tests on the extension picks how the file is read, or
  reports the format as unsupported without reading.
\<close>

definition onDrop :: "'w parsers \<Rightarrow> dropped_file list \<Rightarrow> 'a import_state_scheme \<Rightarrow> 'a import_state_scheme" where
  "onDrop env acceptedFiles st =
     (case acceptedFiles of
        [] \<Rightarrow> st
      | f # _ \<Rightarrow>
          (let st1 = st\<lparr>importError := None, importLoading := True\<rparr>;
               ext = fileExtension (file_name f)
           in if ext = ''csv'' \<or> ext = ''txt'' \<or> ext = ''json'' then
                (case as_text f of None \<Rightarrow> onerror st1 | Some result \<Rightarrow> onload env ext result st1)
              else if ext \<in> set [''xlsx'', ''xls''] then
                (case as_binary f of None \<Rightarrow> onerror st1 | Some result \<Rightarrow> onload env ext result st1)
              else unsupported st1))"

subsection \<open>The format sniffer in the words of its description\<close>

datatype strategy = Csv | Spreadsheet | Json | DelimitedText | Unsupported

text \<open>
  The final extension of a file name is what follows its last dot (the whole name when
  it has no dot).
\<close>

definition final_extension :: "string \<Rightarrow> string" where
  "final_extension fname = rev (takeWhile (\<lambda>c. c \<noteq> CHR ''.'') (rev fname))"

definition sniff :: "string \<Rightarrow> strategy" where
  "sniff fname =
     (let ext = toLowerCase (final_extension fname)
      in if ext = ''csv'' then Csv
         else if ext = ''xlsx'' \<or> ext = ''xls'' then Spreadsheet
         else if ext = ''json'' then Json
         else if ext = ''txt'' then DelimitedText
         else Unsupported)"

subsection \<open>The delimited-text parser in the words of its description\<close>

text \<open>
  The lines of a text, the headers read off its first line, the fields of a line, and
  what a blank line is: one with nothing but white space.
\<close>

definition text_lines :: "string \<Rightarrow> string list" where
  "text_lines content = split_on (\<lambda>c. c = CHR 0x0A) content"

definition header_names :: "string \<Rightarrow> string list" where
  "header_names content = map trim (split_on is_delim (hd (text_lines content)))"

definition trimmed_field :: "string \<Rightarrow> nat \<Rightarrow> string" where
  "trimmed_field line i =
     (let values = split_on is_delim line
      in if i < length values then trim (values ! i) else '''')"

definition is_blank :: "string \<Rightarrow> bool" where
  "is_blank line = list_all is_space line"

definition remaining_nonblank_lines :: "string \<Rightarrow> string list" where
  "remaining_nonblank_lines content = filter (\<lambda>line. \<not> is_blank line) (tl (text_lines content))"

section \<open>The contacts store and the screens that call it\<close>

text \<open>
  The signed-in user of the auth context (\<^verbatim>\<open>user\<close> may be \<^verbatim>\<open>null\<close>); \<^verbatim>\<open>user?.id\<close> is
  \<open>map_option user_id user\<close>, with \<open>None\<close> for \<^verbatim>\<open>undefined\<close>.
\<close>

record auth_user =
  user_id :: string

text \<open>
  \<^verbatim>\<open>contactData\<close> of the contact form, and a record of the import batch:
  \<^verbatim>\<open>{ ...contact, created_by: user?.id }\<close>, where \<^verbatim>\<open>contact\<close> has the three properties the
  normalizer gave it.
\<close>

record contact_data =
  cd_name :: string
  cd_email :: "string option"
  cd_phone :: "string option"
  cd_created_by :: "string option"

record owned_contact = imported_contact +
  created_by :: "string option"

text \<open>
  The calls the two management screens make to the hosted store, and its answer:
  \<^verbatim>\<open>data\<close> (possibly \<^verbatim>\<open>null\<close>) and the message of \<^verbatim>\<open>error\<close> (\<open>None\<close> for no error). The store
  is outside this program: it is a parameter, any function from a request and the
  store's state to an answer and a new state. Every call is logged in \<open>issued\<close>.
\<close>

datatype request =
    SelectContacts
  | InsertContact contact_data
  | UpdateContact jsval contact_data
  | DeleteContact string
  | InsertContacts "owned_contact list"
  | SelectProfiles
  | AdminDeleteUser string
  | DeleteProfile string

record response =
  rsp_data :: "jsval list option"
  rsp_error :: "string option"

type_synonym 's backend = "request \<Rightarrow> 's \<Rightarrow> response \<times> 's"

record 's net =
  store :: 's
  issued :: "request list"

definition call :: "'s backend \<Rightarrow> request \<Rightarrow> 's net \<Rightarrow> response \<times> 's net" where
  "call be rq n =
     (let (rsp, s') = be rq (store n)
      in (rsp, \<lparr>store = s', issued = issued n @ [rq]\<rparr>))"

datatype ui_error =
    ContactNameRequired
  | EmailOrPhoneRequired
  | ErrorFetchingContacts string
  | FailedToSaveContact bool string
  | FailedToDeleteContact string
  | CannotDeleteOwnAccount
  | ErrorFetchingUsers string
  | FailedToDeleteUser string

datatype notice = ContactSaved bool | ContactDeleted | ContactsImported nat | UserDeleted

text \<open>
  A validation error is one of the two the contact form raises for a missing required
  field.
\<close>

fun is_validation_error :: "ui_error \<Rightarrow> bool" where
  "is_validation_error ContactNameRequired = True"
| "is_validation_error EmailOrPhoneRequired = True"
| "is_validation_error e = False"

subsection \<open>Contact management\<close>

text \<open>The state of the \<^verbatim>\<open>ContactManagement\<close> component: the import state and the rest.\<close>

record contact_state = import_state +
  contacts :: "jsval list"
  loading :: bool
  error :: "ui_error option"
  success :: "notice option"
  tabValue :: nat
  openContactDialog :: bool
  editingContact :: jsval
  contactName :: string
  contactEmail :: string
  contactPhone :: string

text \<open>
  \<^verbatim>\<open>fetchContacts\<close>. The callers below start it without awaiting it; it is run here at
  the place of the call, which gives the same requests and the same final state.
\<close>

definition fetchContacts :: "'s backend \<Rightarrow> contact_state \<times> 's net \<Rightarrow> contact_state \<times> 's net" where
  "fetchContacts be = (\<lambda>(ui, n).
     (let ui1 = ui\<lparr>loading := True\<rparr>;
          (rsp, n1) = call be SelectContacts n
      in case rsp_error rsp of
           Some message \<Rightarrow>
             (ui1\<lparr>error := Some (ErrorFetchingContacts message), loading := False\<rparr>, n1)
         | None \<Rightarrow>
             (ui1\<lparr>contacts := (case rsp_data rsp of None \<Rightarrow> [] | Some d \<Rightarrow> d), loading := False\<rparr>, n1)))"

text \<open>\<^verbatim>\<open>handleSaveContact\<close>: the two validations, then the update or the insert.\<close>

definition handleSaveContact ::
  "'s backend \<Rightarrow> auth_user option \<Rightarrow> contact_state \<times> 's net \<Rightarrow> contact_state \<times> 's net" where
  "handleSaveContact be user = (\<lambda>(ui, n).
     if contactName ui = '''' then (ui\<lparr>error := Some ContactNameRequired\<rparr>, n)
     else if contactEmail ui = '''' \<and> contactPhone ui = '''' then
       (ui\<lparr>error := Some EmailOrPhoneRequired\<rparr>, n)
     else
       (let ui1 = ui\<lparr>loading := True, error := None\<rparr>;
            contactData = \<lparr>
              cd_name = contactName ui,
              cd_email = (if contactEmail ui = '''' then None else Some (contactEmail ui)),
              cd_phone = (if contactPhone ui = '''' then None else Some (contactPhone ui)),
              cd_created_by = map_option user_id user \<rparr>;
            editing = truthy (editingContact ui);
            (result, n1) =
              (if editing
               then call be (UpdateContact (get_prop (editingContact ui) ''id'') contactData) n
               else call be (InsertContact contactData) n)
        in case rsp_error result of
             Some message \<Rightarrow>
               (ui1\<lparr>error := Some (FailedToSaveContact editing message), loading := False\<rparr>, n1)
           | None \<Rightarrow>
               (let ui2 = ui1\<lparr>success := Some (ContactSaved editing), openContactDialog := False\<rparr>;
                    (ui3, n2) = fetchContacts be (ui2, n1)
                in (ui3\<lparr>loading := False\<rparr>, n2))))"

text \<open>\<^verbatim>\<open>handleSaveImportedContacts\<close>: the bulk importer.\<close>

definition handleSaveImportedContacts ::
  "'s backend \<Rightarrow> auth_user option \<Rightarrow> contact_state \<times> 's net \<Rightarrow> contact_state \<times> 's net" where
  "handleSaveImportedContacts be user = (\<lambda>(ui, n).
     if length (importedContacts ui) = 0 then (ui\<lparr>importError := Some NoValidContacts\<rparr>, n)
     else
       (let ui1 = ui\<lparr>importLoading := True\<rparr>;
            contactsWithUser =
              map (\<lambda>contact. \<lparr>name = name contact, email = email contact, phone = phone contact,
                               created_by = map_option user_id user\<rparr>)
                (importedContacts ui);
            (rsp, n1) = call be (InsertContacts contactsWithUser) n
        in case rsp_error rsp of
             Some message \<Rightarrow>
               (ui1\<lparr>importError := Some (FailedToImport message), importLoading := False\<rparr>, n1)
           | None \<Rightarrow>
               (let ui2 = ui1\<lparr>success := Some (ContactsImported (length (importedContacts ui))),
                               importedContacts := []\<rparr>;
                    (ui3, n2) = fetchContacts be (ui2, n1)
                in (ui3\<lparr>tabValue := 0, importLoading := False\<rparr>, n2))))"

text \<open>
  The one place that calls the bulk importer, in both copies of the component: the
  button of the preview, which is rendered only while there are accepted records and
  is disabled while an import is running.
  \<^verbatim>\<open>
  {importedContacts.length > 0 && ( ...
      <Button onClick={handleSaveImportedContacts} disabled={importLoading}> ... )}
  \<close>
  \<open>None\<close>: there is no button to click, or it is disabled.
\<close>

definition importButton_onClick ::
  "'s backend \<Rightarrow> auth_user option \<Rightarrow> contact_state \<times> 's net
     \<Rightarrow> (contact_state \<times> 's net) option" where
  "importButton_onClick be user = (\<lambda>(ui, n).
     if length (importedContacts ui) > 0 \<and> \<not> importLoading ui
     then Some (handleSaveImportedContacts be user (ui, n))
     else None)"

subsection \<open>User management\<close>

text \<open>
  What \<^verbatim>\<open>handleDeleteUser\<close> and \<^verbatim>\<open>fetchUsers\<close> read and write of the state of the
  \<^verbatim>\<open>UserManagement\<close> component: \<^verbatim>\<open>users\<close>, \<^verbatim>\<open>loading\<close>, \<^verbatim>\<open>error\<close> and \<^verbatim>\<open>success\<close> (the last
  three renamed, the names being taken above).
\<close>

record user_state =
  users :: "jsval list"
  users_loading :: bool
  users_error :: "ui_error option"
  users_success :: "notice option"

definition fetchUsers :: "'s backend \<Rightarrow> user_state \<times> 's net \<Rightarrow> user_state \<times> 's net" where
  "fetchUsers be = (\<lambda>(ui, n).
     (let ui1 = ui\<lparr>users_loading := True\<rparr>;
          (rsp, n1) = call be SelectProfiles n
      in case rsp_error rsp of
           Some message \<Rightarrow>
             (ui1\<lparr>users_error := Some (ErrorFetchingUsers message), users_loading := False\<rparr>, n1)
         | None \<Rightarrow>
             (ui1\<lparr>users := (case rsp_data rsp of None \<Rightarrow> [] | Some d \<Rightarrow> d), users_loading := False\<rparr>, n1)))"

text \<open>
  \<^verbatim>\<open>handleDeleteUser\<close>. The component exists in two versions that differ in the request
  alone: \<^verbatim>\<open>supabase.auth.admin.deleteUser(id)\<close> in one, a delete on \<^verbatim>\<open>profiles\<close> in the
  other. \<open>confirmed\<close> is the answer to \<^verbatim>\<open>window.confirm\<close>, \<open>target_id\<close> the argument \<^verbatim>\<open>id\<close>.
\<close>

definition delete_user_with ::
  "(string \<Rightarrow> request) \<Rightarrow> 's backend \<Rightarrow> auth_user option \<Rightarrow> bool \<Rightarrow> string
     \<Rightarrow> user_state \<times> 's net \<Rightarrow> user_state \<times> 's net" where
  "delete_user_with delete_request be user confirmed target_id = (\<lambda>(ui, n).
     if Some target_id = map_option user_id user then (ui\<lparr>users_error := Some CannotDeleteOwnAccount\<rparr>, n)
     else if \<not> confirmed then (ui, n)
     else
       (let ui1 = ui\<lparr>users_loading := True\<rparr>;
            (rsp, n1) = call be (delete_request target_id) n
        in case rsp_error rsp of
             Some message \<Rightarrow>
               (ui1\<lparr>users_error := Some (FailedToDeleteUser message), users_loading := False\<rparr>, n1)
           | None \<Rightarrow>
               (let ui2 = ui1\<lparr>users_success := Some UserDeleted\<rparr>;
                    (ui3, n2) = fetchUsers be (ui2, n1)
                in (ui3\<lparr>users_loading := False\<rparr>, n2))))"

definition handleDeleteUser ::
  "'s backend \<Rightarrow> auth_user option \<Rightarrow> bool \<Rightarrow> string
     \<Rightarrow> user_state \<times> 's net \<Rightarrow> user_state \<times> 's net" where
  "handleDeleteUser = delete_user_with AdminDeleteUser"

definition handleDeleteUser_profiles ::
  "'s backend \<Rightarrow> auth_user option \<Rightarrow> bool \<Rightarrow> string
     \<Rightarrow> user_state \<times> 's net \<Rightarrow> user_state \<times> 's net" where
  "handleDeleteUser_profiles = delete_user_with DeleteProfile"

subsection \<open>Initial states, and a store to run the screens against\<close>

text \<open>The \<^verbatim>\<open>useState\<close> initial values of the two components.\<close>

definition initial_contact_state :: contact_state where
  "initial_contact_state = \<lparr>
     importedContacts = [], importLoading = False, importError = None,
     contacts = [], loading = False, error = None, success = None, tabValue = 0,
     openContactDialog = False, editingContact = JNull,
     contactName = '''', contactEmail = '''', contactPhone = '''' \<rparr>"

definition initial_user_state :: user_state where
  "initial_user_state = \<lparr>
     users = [], users_loading = False, users_error = None, users_success = None \<rparr>"

text \<open>
  A store for the examples: it keeps every request it receives, newest first, and
  answers each without data and without error.
\<close>

definition recording_store :: "request list backend" where
  "recording_store rq s = (\<lparr>rsp_data = None, rsp_error = None\<rparr>, rq # s)"

definition idle_net :: "request list net" where
  "idle_net = \<lparr>store = [], issued = []\<rparr>"

section \<open>The dashboard: \<^verbatim>\<open>fetchDashboardData\<close>\<close>

text \<open>
  A row of the messages table; the type of \<open>sent_at\<close> is left open, the program never
  looks into it. The five counts and the state of the \<^verbatim>\<open>Dashboard\<close> component (its
  \<^verbatim>\<open>loading\<close> renamed, the name being taken above).
\<close>

record 't message =
  msg_id :: string
  msg_content :: string
  sent_at :: 't
  sent_by :: string
  recipients :: "string list"
  sent_via :: "string list"
  msg_status :: string

record dashboard_stats =
  totalContacts :: nat
  totalMessages :: nat
  emailsSent :: nat
  whatsappSent :: nat
  totalUsers :: nat

record 't dashboard_state =
  stats :: dashboard_stats
  recentMessages :: "'t message list"
  dash_loading :: bool

definition initial_dashboard_state :: "'t dashboard_state" where
  "initial_dashboard_state = \<lparr>
     stats = \<lparr>totalContacts = 0, totalMessages = 0, emailsSent = 0, whatsappSent = 0,
              totalUsers = 0\<rparr>,
     recentMessages = [], dash_loading = True \<rparr>"

text \<open>
  The three reads of the dashboard and what the store answers to each: the message of
  an error, or the count (\<^verbatim>\<open>count\<close>, possibly \<^verbatim>\<open>null\<close>), respectively the rows (\<^verbatim>\<open>data\<close>,
  possibly \<^verbatim>\<open>null\<close>). The messages are asked for with
  \<^verbatim>\<open>.order('sent_at', { ascending: false })\<close>.
\<close>

datatype dashboard_request = CountContacts | SelectMessagesBySentAtDesc | CountProfiles

record 't dashboard_reads =
  contacts_read :: "string + nat option"
  messages_read :: "string + 't message list option"
  profiles_read :: "string + nat option"

text \<open>
  \<^verbatim>\<open>fetchDashboardData\<close>, with the requests it issues. Any error is thrown to the one
  \<^verbatim>\<open>catch\<close>, which logs it; \<^verbatim>\<open>finally\<close> clears the loading flag. \<open>isAdmin\<close> is the result
  of \<^verbatim>\<open>isAdmin()\<close>.
\<close>

definition fetchDashboardData ::
  "bool \<Rightarrow> 't dashboard_reads \<Rightarrow> 't dashboard_state
     \<Rightarrow> 't dashboard_state \<times> dashboard_request list" where
  "fetchDashboardData isAdmin reads st =
     (let st1 = st\<lparr>dash_loading := True\<rparr>
      in case contacts_read reads of
           Inl contactsError \<Rightarrow> (st1\<lparr>dash_loading := False\<rparr>, [CountContacts])
         | Inr contactsCount \<Rightarrow>
             (case messages_read reads of
                Inl messagesError \<Rightarrow>
                  (st1\<lparr>dash_loading := False\<rparr>, [CountContacts, SelectMessagesBySentAtDesc])
              | Inr messages \<Rightarrow>
                  (let emailMessages =
                         (case messages of
                            None \<Rightarrow> []
                          | Some ms \<Rightarrow> filter (\<lambda>msg. ''email'' \<in> set (sent_via msg)) ms);
                       whatsappMessages =
                         (case messages of
                            None \<Rightarrow> []
                          | Some ms \<Rightarrow> filter (\<lambda>msg. ''whatsapp'' \<in> set (sent_via msg)) ms);
                       show_all = (\<lambda>usersCount.
                         st1\<lparr>stats := \<lparr>
                               totalContacts = (case contactsCount of None \<Rightarrow> 0 | Some c \<Rightarrow> c),
                               totalMessages = (case messages of None \<Rightarrow> 0 | Some ms \<Rightarrow> length ms),
                               emailsSent = length emailMessages,
                               whatsappSent = length whatsappMessages,
                               totalUsers = usersCount \<rparr>,
                             recentMessages := (case messages of None \<Rightarrow> [] | Some ms \<Rightarrow> take 5 ms),
                             dash_loading := False\<rparr>)
                   in if isAdmin then
                        (case profiles_read reads of
                           Inl usersError \<Rightarrow>
                             (st1\<lparr>dash_loading := False\<rparr>,
                              [CountContacts, SelectMessagesBySentAtDesc, CountProfiles])
                         | Inr count \<Rightarrow>
                             (show_all (case count of None \<Rightarrow> 0 | Some c \<Rightarrow> c),
                              [CountContacts, SelectMessagesBySentAtDesc, CountProfiles]))
                      else (show_all 0, [CountContacts, SelectMessagesBySentAtDesc]))))"

subsection \<open>The counts in the words of their description\<close>

text \<open>The number of messages whose \<open>sent_via\<close> list contains a channel.\<close>

fun count_via :: "string \<Rightarrow> 't message list \<Rightarrow> nat" where
  "count_via channel [] = 0"
| "count_via channel (m # ms) =
     (if channel \<in> set (sent_via m) then Suc (count_via channel ms) else count_via channel ms)"

text \<open>
  Every read of a load succeeds: the contact count, the messages and, for an admin, the
  user count.
\<close>

definition every_read_succeeds :: "bool \<Rightarrow> 't dashboard_reads \<Rightarrow> bool" where
  "every_read_succeeds isAdmin reads =
     (\<not> isl (contacts_read reads) \<and> \<not> isl (messages_read reads)
      \<and> (isAdmin \<longrightarrow> \<not> isl (profiles_read reads)))"

text \<open>A list of messages in descending order of send time.\<close>

definition newest_first :: "('t::linorder) message list \<Rightarrow> bool" where
  "newest_first ms = sorted_wrt (\<lambda>a b. sent_at b \<le> sent_at a) ms"

text \<open>An email message for the examples.\<close>

definition example_message :: "nat message" where
  "example_message = \<lparr>
     msg_id = ''m1'', msg_content = ''hello'', sent_at = 7, sent_by = ''u1'',
     recipients = [''c1''], sent_via = [''email''], msg_status = ''sent'' \<rparr>"

section \<open>Properties of the normalizer\<close>

lemma truthy_JStr_iff: "truthy (JStr s) \<longleftrightarrow> s \<noteq> ''''"
  by simp

lemma truthy_js_or_empty: "truthy (js_or v (JStr '''')) \<longleftrightarrow> js_or v (JStr '''') \<noteq> JStr ''''"
  by (cases "truthy v") (auto simp: js_or_def)

lemma truthy_js_or: "truthy (js_or a b) \<longleftrightarrow> truthy a \<or> truthy b"
  by (simp add: js_or_def)

lemma map_item_not_nullish:
  "\<not> nullish item \<Longrightarrow> \<exists>c. map_item item = Inr c"
  by (simp add: map_item_def)

lemma map_item_fields_truthy:
  assumes "map_item item = Inr c"
  shows "truthy (name c) \<longleftrightarrow> name c \<noteq> JStr ''''"
    and "truthy (email c) \<longleftrightarrow> email c \<noteq> JStr ''''"
    and "truthy (phone c) \<longleftrightarrow> phone c \<noteq> JStr ''''"
  using assms truthy_js_or_empty
  by (auto simp: map_item_def split: if_splits)

lemma accepted_map_item:
  assumes "map_item item = Inr c"
  shows "accepted c \<longleftrightarrow>
    name c \<noteq> JStr '''' \<and> (email c \<noteq> JStr '''' \<or> phone c \<noteq> JStr '''')"
  using map_item_fields_truthy [OF assms] by (simp add: accepted_def truthy_js_or)

lemma map_items_Inr_iff:
  "map_items xs = Inr cs \<longleftrightarrow> list_all2 (\<lambda>x c. map_item x = Inr c) xs cs"
proof (induction xs arbitrary: cs)
  case Nil
  show ?case by auto
next
  case (Cons x xs)
  show ?case
  proof (cases cs)
    case Nil
    then show ?thesis by (simp split: sum.splits)
  next
    case (Cons c cs')
    have "map_items (x # xs) = Inr (c # cs') \<longleftrightarrow> map_item x = Inr c \<and> map_items xs = Inr cs'"
      by (simp split: sum.splits)
    also have "\<dots> \<longleftrightarrow> map_item x = Inr c \<and> list_all2 (\<lambda>x c. map_item x = Inr c) xs cs'"
      by (simp only: Cons.IH)
    finally show ?thesis using Cons by simp
  qed
qed

lemma map_items_objects:
  "\<exists>cs. map_items (map JObj rows) = Inr cs"
proof (induction rows)
  case Nil
  show ?case by simp
next
  case (Cons r rows)
  then obtain cs where "map_items (map JObj rows) = Inr cs" by blast
  moreover obtain c where "map_item (JObj r) = Inr c"
    using map_item_not_nullish [of "JObj r"] by (auto simp: nullish_def)
  ultimately show ?case by simp
qed

lemma filter_as_indices:
  "filter P xs = map ((!) xs) (filter (\<lambda>i. P (xs ! i)) [0..<length xs])"
proof -
  have "filter P xs = filter P (map ((!) xs) [0..<length xs])"
    by (simp add: map_nth)
  also have "\<dots> = map ((!) xs) (filter (P \<circ> (!) xs) [0..<length xs])"
    by (rule filter_map)
  finally show ?thesis by (simp add: comp_def)
qed

lemma sorted_wrt_filter_upt: "sorted_wrt (<) (filter Q [0..<n])"
  by (rule sorted_wrt_filter) (simp add: sorted_wrt_upt)

lemma first_nonempty_Nil: "first_nonempty item [] = JStr ''''"
  by (simp add: first_nonempty_def)

lemma first_nonempty_Cons:
  "first_nonempty item (k # ks) = js_or (get_prop item k) (first_nonempty item ks)"
  by (simp add: first_nonempty_def js_or_def)

lemma js_or_assoc: "js_or (js_or a b) c = js_or a (js_or b c)"
  by (simp add: js_or_def)

text \<open>
  Claim C2. For a raw record, the literal \<^verbatim>\<open>||\<close> chains of the normalizer compute: for the
  name, the first non-empty value under the keys name, Name, NAME, contact, Contact in
  that order, and the empty string when there is none; for the email, the same over
  email, Email, EMAIL; for the phone, the same over phone, Phone, PHONE, mobile, Mobile,
  whatsapp, Whatsapp. Hence a record whose only header is EMAIL is normalized exactly as
  the record with the same value under the header email.
\<close>

theorem map_item_alias_resolution:
  "map_item (JObj r) = Inr \<lparr>
      name = first_nonempty (JObj r) [''name'', ''Name'', ''NAME'', ''contact'', ''Contact''],
      email = first_nonempty (JObj r) [''email'', ''Email'', ''EMAIL''],
      phone = first_nonempty (JObj r)
        [''phone'', ''Phone'', ''PHONE'', ''mobile'', ''Mobile'', ''whatsapp'', ''Whatsapp''] \<rparr>
   \<and> map_item (JObj [(''EMAIL'', v)]) = map_item (JObj [(''email'', v)])"
  by (simp add: map_item_def nullish_def first_nonempty_Cons first_nonempty_Nil js_or_assoc)
    (simp add: js_or_def)

theorem map_item_alias_resolution_witness:
  "map_item (JObj [(''EMAIL'', JStr ''a@b.c''), (''Contact'', JStr ''Ann''), (''mobile'', JStr ''7'')])
     = Inr \<lparr>name = JStr ''Ann'', email = JStr ''a@b.c'', phone = JStr ''7''\<rparr>
   \<and> map_item (JObj [(''EMAIL'', JStr ''a@b.c'')]) = map_item (JObj [(''email'', JStr ''a@b.c'')])"
  using map_item_alias_resolution
    [of "[(''EMAIL'', JStr ''a@b.c''), (''Contact'', JStr ''Ann''), (''mobile'', JStr ''7'')]"
        "JStr ''a@b.c''"]
  by (simp add: first_nonempty_def)

text \<open>
  Claim C1. For every list of raw row records (objects), the normalizer succeeds and
  stores an accepted list in which a record occurs exactly when it is the normalized
  form of some input row, its name is not the empty string and its email or its phone is
  not the empty string. The record with name Bob, an empty email and no phone field is
  not accepted.
\<close>

theorem processImportedData_filter_invariant:
  "\<exists>out. processedContacts (JArr (map JObj rows)) = Inr out
     \<and> importedContacts (processImportedData (JArr (map JObj rows)) st) = out
     \<and> (\<forall>c. c \<in> set out \<longleftrightarrow>
           (\<exists>r. r \<in> set rows \<and> map_item (JObj r) = Inr c)
           \<and> name c \<noteq> JStr '''' \<and> (email c \<noteq> JStr '''' \<or> phone c \<noteq> JStr ''''))
     \<and> processedContacts (JArr [JObj [(''name'', JStr ''Bob''), (''email'', JStr '''')]]) = Inr []"
proof -
  obtain cs where cs: "map_items (map JObj rows) = Inr cs"
    using map_items_objects by blast
  then have rel: "list_all2 (\<lambda>x c. map_item x = Inr c) (map JObj rows) cs"
    by (simp add: map_items_Inr_iff)
  let ?out = "filter accepted cs"
  have out: "processedContacts (JArr (map JObj rows)) = Inr ?out"
    by (simp add: cs)
  have st: "importedContacts (processImportedData (JArr (map JObj rows)) st) = ?out"
    by (simp add: processImportedData_def cs)
  have mem: "c \<in> set cs \<longleftrightarrow> (\<exists>r. r \<in> set rows \<and> map_item (JObj r) = Inr c)" for c
  proof
    assume "c \<in> set cs"
    then obtain i where i: "i < length cs" "cs ! i = c"
      by (auto simp: in_set_conv_nth)
    with rel have "map_item (map JObj rows ! i) = Inr c" "i < length rows"
      by (auto dest: list_all2_nthD2 list_all2_lengthD)
    then show "\<exists>r. r \<in> set rows \<and> map_item (JObj r) = Inr c"
      by (auto intro!: exI [of _ "rows ! i"])
  next
    assume "\<exists>r. r \<in> set rows \<and> map_item (JObj r) = Inr c"
    then obtain i where i: "i < length rows" "map_item (JObj (rows ! i)) = Inr c"
      by (auto simp: in_set_conv_nth)
    with rel have "map_item (map JObj rows ! i) = Inr (cs ! i)" "i < length cs"
      by (auto dest: list_all2_nthD list_all2_lengthD)
    with i show "c \<in> set cs" by auto
  qed
  have inv: "c \<in> set ?out \<longleftrightarrow>
      (\<exists>r. r \<in> set rows \<and> map_item (JObj r) = Inr c)
      \<and> name c \<noteq> JStr '''' \<and> (email c \<noteq> JStr '''' \<or> phone c \<noteq> JStr '''')" for c
  proof (cases "c \<in> set cs")
    case True
    with mem [of c] obtain r where "map_item (JObj r) = Inr c" by blast
    from accepted_map_item [OF this] True mem [of c] show ?thesis by simp
  next
    case False
    with mem [of c] show ?thesis by simp
  qed
  have bob: "processedContacts (JArr [JObj [(''name'', JStr ''Bob''), (''email'', JStr '''')]]) = Inr []"
    by (simp add: map_item_def nullish_def js_or_def accepted_def)
  from out st inv bob show ?thesis by (intro exI [of _ ?out] conjI allI)
qed

theorem processImportedData_filter_invariant_witness:
  "processedContacts (JArr (map JObj
      [[(''Name'', JStr ''Ann''), (''Phone'', JStr ''+1555'')],
       [(''name'', JStr ''Bob''), (''email'', JStr '''')]]))
     = Inr [\<lparr>name = JStr ''Ann'', email = JStr '''', phone = JStr ''+1555''\<rparr>]"
  using processImportedData_filter_invariant
    [of "[[(''Name'', JStr ''Ann''), (''Phone'', JStr ''+1555'')],
          [(''name'', JStr ''Bob''), (''email'', JStr '''')]]"
        "\<lparr>importedContacts = [], importLoading = True, importError = None\<rparr>"]
  by (simp add: map_item_def nullish_def js_or_def accepted_def)

lemma processedContacts_order:
  assumes "processedContacts (JArr rows) = Inr out"
  shows "\<exists>idx. length idx = length out \<and> sorted_wrt (<) idx
           \<and> (\<forall>j. j < length out \<longrightarrow>
                 idx ! j < length rows \<and> map_item (rows ! (idx ! j)) = Inr (out ! j))"
proof (cases "map_items rows")
  case (Inl e)
  with assms show ?thesis by simp
next
  case (Inr cs)
  with assms have out: "out = filter accepted cs" by simp
  from Inr have rel: "list_all2 (\<lambda>x c. map_item x = Inr c) rows cs"
    by (simp only: map_items_Inr_iff)
  define idx where "idx = filter (\<lambda>i. accepted (cs ! i)) [0..<length cs]"
  have eq: "out = map ((!) cs) idx"
    unfolding out idx_def by (rule filter_as_indices)
  have len: "length idx = length out"
    by (simp only: eq length_map)
  have sorted: "sorted_wrt (<) idx"
    unfolding idx_def by (rule sorted_wrt_filter_upt)
  have bound: "i < length cs" if "i \<in> set idx" for i
    using that unfolding idx_def by simp
  have rows_cs: "length rows = length cs"
    using rel by (rule list_all2_lengthD)
  have pt: "idx ! j < length rows \<and> map_item (rows ! (idx ! j)) = Inr (out ! j)"
    if j: "j < length out" for j
  proof -
    from j len have jl: "j < length idx" by simp
    then have lt: "idx ! j < length cs" by (intro bound nth_mem)
    from list_all2_nthD2 [OF rel lt]
    have "map_item (rows ! (idx ! j)) = Inr (cs ! (idx ! j))" .
    moreover have "out ! j = cs ! (idx ! j)"
      unfolding eq using jl by (rule nth_map)
    ultimately show ?thesis using lt rows_cs by simp
  qed
  from len sorted pt show ?thesis by blast
qed

text \<open>
  Claim C10. For every list of raw row records, the accepted list keeps the order of the
  input: there are strictly increasing row positions, one per accepted record, such that
  the record at each place of the output is the normalized form of the row at the
  matching position. Strictly increasing positions are pairwise distinct, so distinct
  places of the output come from distinct rows.
\<close>

theorem processImportedData_preserves_order:
  "\<exists>out idx. processedContacts (JArr (map JObj rows)) = Inr out
     \<and> length idx = length out \<and> sorted_wrt (<) idx
     \<and> (\<forall>j. j < length out \<longrightarrow>
           idx ! j < length rows \<and> map_item (JObj (rows ! (idx ! j))) = Inr (out ! j))"
proof -
  obtain out where out: "processedContacts (JArr (map JObj rows)) = Inr out"
    using map_items_objects [of rows] by (auto split: sum.splits)
  from processedContacts_order [OF out] obtain idx where
    "length idx = length out" "sorted_wrt (<) idx"
    "\<forall>j. j < length out \<longrightarrow>
        idx ! j < length (map JObj rows) \<and> map_item (map JObj rows ! (idx ! j)) = Inr (out ! j)"
    by blast
  with out show ?thesis by (intro exI [of _ out] exI [of _ idx]) auto
qed

theorem processImportedData_preserves_order_witness:
  "\<exists>out idx. processedContacts (JArr (map JObj
        [[(''name'', JStr ''Bob''), (''email'', JStr '''')],
         [(''Name'', JStr ''Ann''), (''Phone'', JStr ''+1555'')]])) = Inr out
     \<and> length idx = length out \<and> sorted_wrt (<) idx
     \<and> (\<forall>j. j < length out \<longrightarrow>
           idx ! j < length [[(''name'', JStr ''Bob''), (''email'', JStr '''')],
                             [(''Name'', JStr ''Ann''), (''Phone'', JStr ''+1555'')]]
           \<and> map_item (JObj ([[(''name'', JStr ''Bob''), (''email'', JStr '''')],
                 [(''Name'', JStr ''Ann''), (''Phone'', JStr ''+1555'')]] ! (idx ! j)))
               = Inr (out ! j))"
  by (rule processImportedData_preserves_order)

section \<open>Properties of the parsers and of the sniffer\<close>

lemma split_on_not_Nil: "split_on sep s \<noteq> []"
  by (induction s) (auto split: list.splits)

lemma length_split_on: "length (split_on sep s) = Suc (length (filter sep s))"
  by (induction s) (auto split: list.splits simp: split_on_not_Nil)

lemma last_split_on:
  "last (split_on sep s) = rev (takeWhile (\<lambda>c. \<not> sep c) (rev s))"
proof (induction s)
  case Nil
  show ?case by simp
next
  case (Cons c cs)
  obtain piece pieces where sp: "split_on sep cs = piece # pieces"
    using split_on_not_Nil [of sep cs] by (cases "split_on sep cs") auto
  show ?case
  proof (cases "sep c")
    case True
    then show ?thesis
      using Cons.IH by (simp add: split_on_not_Nil takeWhile_append)
  next
    case False
    show ?thesis
    proof (cases "\<exists>x\<in>set cs. sep x")
      case True
      then have "filter sep cs \<noteq> []" by (simp add: filter_empty_conv)
      then have "length (split_on sep cs) \<noteq> Suc 0"
        by (simp add: length_split_on)
      with sp have "pieces \<noteq> []" by auto
      with sp False True show ?thesis
        using Cons.IH by (auto simp: takeWhile_append)
    next
      case False
      then have "filter sep cs = []" by (simp add: filter_empty_conv)
      then have "length (split_on sep cs) = Suc 0"
        by (simp add: length_split_on)
      with sp have pieces: "pieces = []" by auto
      from False have tw: "takeWhile (\<lambda>c. \<not> sep c) (rev cs) = rev cs"
        by (simp add: takeWhile_eq_all_conv)
      from Cons.IH sp pieces tw have "piece = cs" by simp
      with sp pieces \<open>\<not> sep c\<close> False show ?thesis
        by (simp add: takeWhile_append)
    qed
  qed
qed

lemma fileExtension_eq: "fileExtension fname = toLowerCase (final_extension fname)"
  by (simp add: fileExtension_def final_extension_def last_split_on)

lemma map_of_set_prop:
  "map_of (set_prop obj k v) = (if k = ''__proto__'' then map_of obj else (map_of obj)(k \<mapsto> v))"
  by (simp add: set_prop_def update_conv')

lemma fold_set_prop_snoc:
  "fold (\<lambda>(index, header) obj. set_prop obj header (g index)) (enumerate n (hs @ [h])) obj0
     = set_prop (fold (\<lambda>(index, header) obj. set_prop obj header (g index)) (enumerate n hs) obj0)
         h (g (n + length hs))"
  by (simp add: enumerate_append_eq)

lemma map_of_fold_set_prop:
  assumes "i < length hs" "hs ! i = k" "k \<notin> set (drop (Suc i) hs)" "k \<noteq> ''__proto__''"
  shows "map_of (fold (\<lambda>(index, header) obj. set_prop obj header (g index)) (enumerate n hs) obj0) k
           = Some (g (n + i))"
  using assms
proof (induction hs rule: rev_induct)
  case Nil
  then show ?case by simp
next
  case (snoc h hs)
  show ?case
  proof (cases "i = length hs")
    case True
    with snoc.prems show ?thesis
      by (simp only: fold_set_prop_snoc map_of_set_prop) simp
  next
    case False
    with snoc.prems have i: "i < length hs" by simp
    with snoc.prems have "hs ! i = k" "k \<notin> set (drop (Suc i) hs)" "k \<noteq> h"
      by (auto simp: nth_append)
    with snoc.IH [OF i] snoc.prems(4) show ?thesis
      by (simp only: fold_set_prop_snoc map_of_set_prop) simp
  qed
qed

lemma field_value_eq:
  "field_value values index = JStr (if index < length values then trim (values ! index) else '''')"
  by (simp add: field_value_def js_or_def)

text \<open>
  Claim C9. For every file name, the two chains of extension tests in \<^verbatim>\<open>onDrop\<close> act as one
  sniffer on the lowercased final extension: csv selects the CSV parser, xlsx and xls
  the spreadsheet reader, json the JSON parser and txt the delimited-text parser, each
  fed with the file as read; every other extension reports the unsupported format, ends
  the import of that file without calling any parser, and leaves the accepted records
  as they were.
\<close>

theorem onDrop_format_sniffer:
  "onDrop env (f # fs) st =
    (let st1 = st\<lparr>importError := None, importLoading := True\<rparr>
     in case sniff (file_name f) of
          Csv \<Rightarrow>
            (case as_text f of
               None \<Rightarrow> onerror st1
             | Some result \<Rightarrow>
                 (case papa_parse env result of
                    PapaComplete parsedData \<Rightarrow> processImportedData parsedData st1
                  | PapaError message \<Rightarrow>
                      st1\<lparr>importError := Some (CsvParsingError message), importLoading := False\<rparr>
                  | PapaThrows e \<Rightarrow> processing_failed e st1))
        | Spreadsheet \<Rightarrow>
            (case as_binary f of
               None \<Rightarrow> onerror st1
             | Some result \<Rightarrow>
                 (case xlsx_read env result of
                    Inl e \<Rightarrow> processing_failed e st1
                  | Inr wb \<Rightarrow>
                      (case sheet_to_json env
                              (map_of (Sheets wb)
                                 (case SheetNames wb of [] \<Rightarrow> ''undefined'' | n # _ \<Rightarrow> n)) of
                         Inl e \<Rightarrow> processing_failed e st1
                       | Inr parsedData \<Rightarrow> processImportedData parsedData st1)))
        | Json \<Rightarrow>
            (case as_text f of
               None \<Rightarrow> onerror st1
             | Some result \<Rightarrow>
                 (case json_parse env result of
                    Inl e \<Rightarrow> processing_failed e st1
                  | Inr parsedData \<Rightarrow> processImportedData parsedData st1))
        | DelimitedText \<Rightarrow>
            (case as_text f of
               None \<Rightarrow> onerror st1
             | Some result \<Rightarrow>
                 (case parse_txt result of
                    Inl e \<Rightarrow> processing_failed e st1
                  | Inr parsedData \<Rightarrow> processImportedData parsedData st1))
        | Unsupported \<Rightarrow>
            st\<lparr>importError := Some UnsupportedFormat, importLoading := False\<rparr>)
   \<and> importedContacts (st\<lparr>importError := Some UnsupportedFormat, importLoading := False\<rparr>)
       = importedContacts st"
  (is "?code = ?pipeline \<and> ?kept")
proof -
  define ext where "ext = toLowerCase (final_extension (file_name f))"
  have fe: "fileExtension (file_name f) = ext"
    by (simp add: ext_def fileExtension_eq)
  consider "ext = ''csv''" | "ext = ''xlsx''" | "ext = ''xls''" | "ext = ''json''" | "ext = ''txt''"
    | "ext \<noteq> ''csv''" "ext \<noteq> ''xlsx''" "ext \<noteq> ''xls''" "ext \<noteq> ''json''" "ext \<noteq> ''txt''"
    by blast
  then have "?code = ?pipeline"
  proof cases
    case 1
    then show ?thesis
      by (simp add: onDrop_def onload_def sniff_def fe ext_def [symmetric] Let_def
          split: option.splits sum.splits)
  next
    case 2
    then show ?thesis
      by (simp add: onDrop_def onload_def sniff_def fe ext_def [symmetric] Let_def
          split: option.splits sum.splits)
  next
    case 3
    then show ?thesis
      by (simp add: onDrop_def onload_def sniff_def fe ext_def [symmetric] Let_def
          split: option.splits sum.splits)
  next
    case 4
    then show ?thesis
      by (simp add: onDrop_def onload_def sniff_def fe ext_def [symmetric] Let_def
          split: option.splits sum.splits)
  next
    case 5
    then show ?thesis
      by (simp add: onDrop_def onload_def sniff_def fe ext_def [symmetric] Let_def
          split: option.splits sum.splits)
  next
    case 6
    then show ?thesis
      by (simp add: onDrop_def onload_def sniff_def fe ext_def [symmetric] Let_def unsupported_def)
  qed
  moreover have ?kept by simp
  ultimately show ?thesis by (rule conjI)
qed

lemma sniff_png: "sniff ''photo.PNG'' = Unsupported"
  by code_simp

lemma sniff_upper_csv: "sniff ''list.v2.CSV'' = Csv"
  by code_simp

theorem onDrop_format_sniffer_witness:
  "onDrop \<lparr>papa_parse = (\<lambda>s. PapaComplete (JArr [])), xlsx_read = (\<lambda>s. Inl TypeError),
            sheet_to_json = (\<lambda>w :: unit option. Inl TypeError), json_parse = (\<lambda>s. Inl TypeError)\<rparr>
      [\<lparr>file_name = ''photo.PNG'', as_text = Some ''x'', as_binary = Some ''x''\<rparr>]
      \<lparr>importedContacts = [\<lparr>name = JStr ''Ann'', email = JStr '''', phone = JStr ''7''\<rparr>],
        importLoading = False, importError = None\<rparr>
     = \<lparr>importedContacts = [\<lparr>name = JStr ''Ann'', email = JStr '''', phone = JStr ''7''\<rparr>],
        importLoading = False, importError = Some UnsupportedFormat\<rparr>
   \<and> onDrop \<lparr>papa_parse = (\<lambda>s. PapaComplete (JArr [])), xlsx_read = (\<lambda>s. Inl TypeError),
            sheet_to_json = (\<lambda>w :: unit option. Inl TypeError), json_parse = (\<lambda>s. Inl TypeError)\<rparr>
      [\<lparr>file_name = ''list.v2.CSV'', as_text = Some ''x'', as_binary = None\<rparr>]
      \<lparr>importedContacts = [\<lparr>name = JStr ''Ann'', email = JStr '''', phone = JStr ''7''\<rparr>],
        importLoading = False, importError = Some UnsupportedFormat\<rparr>
     = \<lparr>importedContacts = [], importLoading = False, importError = None\<rparr>"
  using
    onDrop_format_sniffer [of
      "\<lparr>papa_parse = (\<lambda>s. PapaComplete (JArr [])), xlsx_read = (\<lambda>s. Inl TypeError),
         sheet_to_json = (\<lambda>w :: unit option. Inl TypeError), json_parse = (\<lambda>s. Inl TypeError)\<rparr>"
      "\<lparr>file_name = ''photo.PNG'', as_text = Some ''x'', as_binary = Some ''x''\<rparr>" "[]"
      "\<lparr>importedContacts = [\<lparr>name = JStr ''Ann'', email = JStr '''', phone = JStr ''7''\<rparr>],
         importLoading = False, importError = None\<rparr>"]
    onDrop_format_sniffer [of
      "\<lparr>papa_parse = (\<lambda>s. PapaComplete (JArr [])), xlsx_read = (\<lambda>s. Inl TypeError),
         sheet_to_json = (\<lambda>w :: unit option. Inl TypeError), json_parse = (\<lambda>s. Inl TypeError)\<rparr>"
      "\<lparr>file_name = ''list.v2.CSV'', as_text = Some ''x'', as_binary = None\<rparr>" "[]"
      "\<lparr>importedContacts = [\<lparr>name = JStr ''Ann'', email = JStr '''', phone = JStr ''7''\<rparr>],
         importLoading = False, importError = Some UnsupportedFormat\<rparr>"]
  by (simp add: sniff_png sniff_upper_csv processImportedData_def)

lemma set_split_on: "p \<in> set (split_on sep s) \<Longrightarrow> set p \<subseteq> set s"
proof (induction s arbitrary: p)
  case Nil
  then show ?case by simp
next
  case (Cons c cs)
  obtain piece pieces where sp: "split_on sep cs = piece # pieces"
    using split_on_not_Nil [of sep cs] by (cases "split_on sep cs") auto
  have "set piece \<subseteq> set cs" "\<And>q. q \<in> set pieces \<Longrightarrow> set q \<subseteq> set cs"
    using Cons.IH sp by auto
  with Cons.prems sp show ?case
    by (cases "sep c") (auto split: if_splits)
qed

lemma trim_all_space:
  assumes "list_all is_space s"
  shows "trim s = []"
proof -
  from assms have empty: "dropWhile is_space s = []"
    by (simp add: list_all_iff)
  show ?thesis by (simp only: trim_def empty rev.simps dropWhile.simps)
qed

lemma trimmed_field_blank:
  assumes "is_blank line"
  shows "trimmed_field line i = []"
proof (cases "i < length (split_on is_delim line)")
  case True
  then have "split_on is_delim line ! i \<in> set (split_on is_delim line)" by simp
  then have "set (split_on is_delim line ! i) \<subseteq> set line" by (rule set_split_on)
  with assms have "list_all is_space (split_on is_delim line ! i)"
    by (auto simp: is_blank_def list_all_iff)
  then show ?thesis using True by (simp add: trimmed_field_def trim_all_space)
next
  case False
  then show ?thesis by (simp add: trimmed_field_def)
qed

lemma field_value_trimmed:
  "field_value (split_on is_delim line) i = JStr (trimmed_field line i)"
  by (simp add: field_value_eq trimmed_field_def)

lemma map_of_fold_set_prop_range:
  "map_of (fold (\<lambda>(index, header) obj. set_prop obj header (g index)) (enumerate n hs) []) k = Some v
     \<Longrightarrow> \<exists>i. v = g i"
proof (induction hs rule: rev_induct)
  case Nil
  then show ?case by simp
next
  case (snoc h hs)
  from snoc.prems have
    "(if h = ''__proto__''
      then map_of (fold (\<lambda>(index, header) obj. set_prop obj header (g index)) (enumerate n hs) [])
      else (map_of (fold (\<lambda>(index, header) obj. set_prop obj header (g index)) (enumerate n hs) []))
             (h \<mapsto> g (n + length hs))) k = Some v"
    by (simp only: fold_set_prop_snoc map_of_set_prop)
  with snoc.IH show ?case
    by (auto split: if_splits)
qed

lemma get_prop_line_to_obj:
  assumes "i < length hs" "hs ! i \<noteq> ''__proto__''" "hs ! i \<notin> set (drop (Suc i) hs)"
  shows "get_prop (line_to_obj hs line) (hs ! i) = JStr (trimmed_field line i)"
  using map_of_fold_set_prop [OF assms(1) refl assms(3) assms(2),
      of "field_value (split_on is_delim line)" 0 "[]"]
  by (simp add: line_to_obj_def field_value_trimmed)

lemma get_prop_line_to_obj_blank:
  assumes "is_blank line"
  shows "get_prop (line_to_obj hs line) k = JUndefined \<or> get_prop (line_to_obj hs line) k = JStr ''''"
proof (cases "map_of (fold (\<lambda>(index, header) obj.
          set_prop obj header (field_value (split_on is_delim line) index)) (enumerate 0 hs) []) k")
  case None
  then show ?thesis by (simp add: line_to_obj_def)
next
  case (Some v)
  from map_of_fold_set_prop_range [OF Some] obtain i
    where "v = field_value (split_on is_delim line) i" by blast
  then have "v = JStr ''''"
    using trimmed_field_blank [OF assms] by (simp add: field_value_trimmed)
  with Some show ?thesis by (simp add: line_to_obj_def)
qed

lemma js_or_falsy: "\<not> truthy a \<Longrightarrow> js_or a b = b"
  by (simp add: js_or_def)

lemma map_item_blank_line:
  assumes "is_blank line"
  shows "map_item (line_to_obj hs line) = Inr \<lparr>name = JStr '''', email = JStr '''', phone = JStr ''''\<rparr>"
proof -
  have falsy: "\<not> truthy (get_prop (line_to_obj hs line) k)" for k
    using get_prop_line_to_obj_blank [OF assms, of hs k] by auto
  have "\<not> nullish (line_to_obj hs line)"
    by (simp add: line_to_obj_def nullish_def)
  then show ?thesis
    by (simp add: map_item_def js_or_falsy falsy)
qed

lemma parse_txt_rows:
  "parse_txt content = Inr (JArr (map (line_to_obj (header_names content)) (tl (text_lines content))))"
  by (cases "split_on (\<lambda>c. c = CHR 0x0A) content")
    (simp_all add: parse_txt_def header_names_def text_lines_def split_on_not_Nil)

lemma txt_example_ext: "fileExtension ''contacts.txt'' = ''txt''"
  by code_simp

lemma txt_example_parse:
  "parse_txt (''name,phone'' @ [CHR 0x0A] @ ''Cy,12345'')
     = Inr (JArr [JObj [(''name'', JStr ''Cy''), (''phone'', JStr ''12345'')]])"
  by code_simp

lemma txt_example_normalize:
  "processedContacts (JArr [JObj [(''name'', JStr ''Cy''), (''phone'', JStr ''12345'')]])
     = Inr [\<lparr>name = JStr ''Cy'', email = JStr '''', phone = JStr ''12345''\<rparr>]"
  by (simp add: map_item_def nullish_def js_or_def accepted_def)

text \<open>
  The copy of the parser without the filter (\<^verbatim>\<open>part_001\<close>), for every content: it builds
  one record per remaining line, blank or not; a header that is not repeated further
  right (and is not \<^verbatim>\<open>__proto__\<close>) holds the trimmed field at its position, the empty
  string when the line is too short. The record of a blank line normalizes to three
  empty fields, which the filter of the normalizer rejects, so that the accepted records
  do not show the extra ones. A file with the header line name,phone and the data line
  Cy,12345 yields exactly one accepted record: name Cy, phone 12345 (and an empty email).
\<close>

lemma parse_txt_record_per_line:
  "(\<exists>rows. parse_txt content = Inr (JArr rows)
      \<and> Suc (length rows) = length (text_lines content)
      \<and> (\<forall>j i. j < length rows \<and> i < length (header_names content)
              \<and> header_names content ! i \<noteq> ''__proto__''
              \<and> header_names content ! i \<notin> set (drop (Suc i) (header_names content))
            \<longrightarrow> get_prop (rows ! j) (header_names content ! i)
                  = JStr (trimmed_field (text_lines content ! Suc j) i))
      \<and> (\<forall>j. j < length rows \<and> is_blank (text_lines content ! Suc j)
            \<longrightarrow> map_item (rows ! j)
                  = Inr \<lparr>name = JStr '''', email = JStr '''', phone = JStr ''''\<rparr>
                \<and> \<not> accepted \<lparr>name = JStr '''', email = JStr '''', phone = JStr ''''\<rparr>))
   \<and> (fileExtension (file_name f) = ''txt''
        \<and> as_text f = Some (''name,phone'' @ [CHR 0x0A] @ ''Cy,12345'')
      \<longrightarrow> importedContacts (onDrop env (f # fs) st)
            = [\<lparr>name = JStr ''Cy'', email = JStr '''', phone = JStr ''12345''\<rparr>])"
proof -
  let ?hs = "header_names content"
  let ?rows = "map (line_to_obj ?hs) (tl (text_lines content))"
  have ne: "text_lines content \<noteq> []"
    by (simp add: text_lines_def split_on_not_Nil)
  have len: "Suc (length ?rows) = length (text_lines content)"
    using ne by simp
  have row: "?rows ! j = line_to_obj ?hs (text_lines content ! Suc j)" if "j < length ?rows" for j
    using that ne by (simp add: nth_tl)
  have fields: "get_prop (?rows ! j) (?hs ! i) = JStr (trimmed_field (text_lines content ! Suc j) i)"
    if "j < length ?rows \<and> i < length ?hs \<and> ?hs ! i \<noteq> ''__proto__''
          \<and> ?hs ! i \<notin> set (drop (Suc i) ?hs)" for j i
    using that row [of j] get_prop_line_to_obj [of i ?hs] by simp
  have blank: "map_item (?rows ! j) = Inr \<lparr>name = JStr '''', email = JStr '''', phone = JStr ''''\<rparr>
        \<and> \<not> accepted \<lparr>name = JStr '''', email = JStr '''', phone = JStr ''''\<rparr>"
    if "j < length ?rows \<and> is_blank (text_lines content ! Suc j)" for j
    using that row [of j] map_item_blank_line [of "text_lines content ! Suc j" ?hs]
    by (simp add: accepted_def)
  have general: "\<exists>rows. parse_txt content = Inr (JArr rows)
      \<and> Suc (length rows) = length (text_lines content)
      \<and> (\<forall>j i. j < length rows \<and> i < length ?hs \<and> ?hs ! i \<noteq> ''__proto__''
              \<and> ?hs ! i \<notin> set (drop (Suc i) ?hs)
            \<longrightarrow> get_prop (rows ! j) (?hs ! i) = JStr (trimmed_field (text_lines content ! Suc j) i))
      \<and> (\<forall>j. j < length rows \<and> is_blank (text_lines content ! Suc j)
            \<longrightarrow> map_item (rows ! j)
                  = Inr \<lparr>name = JStr '''', email = JStr '''', phone = JStr ''''\<rparr>
                \<and> \<not> accepted \<lparr>name = JStr '''', email = JStr '''', phone = JStr ''''\<rparr>)"
    by (rule exI [of _ ?rows]) (use parse_txt_rows [of content] len fields blank in blast)
  have example: "importedContacts (onDrop env (f # fs) st)
            = [\<lparr>name = JStr ''Cy'', email = JStr '''', phone = JStr ''12345''\<rparr>]"
    if "fileExtension (file_name f) = ''txt''
        \<and> as_text f = Some (''name,phone'' @ [CHR 0x0A] @ ''Cy,12345'')"
    using that txt_example_parse txt_example_normalize
    by (simp add: onDrop_def onload_def processImportedData_def Let_def)
  from general example show ?thesis by blast
qed



lemma dropWhile_all_or_head:
  "dropWhile P xs = [] \<or> \<not> P (hd (dropWhile P xs))"
  by (induction xs) auto

lemma trim_eq_Nil_iff: "trim s = [] \<longleftrightarrow> is_blank s"
proof
  assume "is_blank s"
  then show "trim s = []" by (simp add: is_blank_def trim_all_space)
next
  assume t: "trim s = []"
  let ?d = "dropWhile is_space s"
  from t have "dropWhile is_space (rev ?d) = []"
    by (simp only: trim_def rev_is_Nil_conv)
  then have all: "\<forall>x\<in>set ?d. is_space x"
    by (simp only: dropWhile_eq_Nil_conv set_rev)
  have "?d = []"
  proof (rule ccontr)
    assume ne: "?d \<noteq> []"
    then have "hd ?d \<in> set ?d" by simp
    with all have "is_space (hd ?d)" by blast
    with dropWhile_all_or_head [of is_space s] ne show False by blast
  qed
  then show "is_blank s"
    by (simp add: is_blank_def list_all_iff)
qed

text \<open>
  The copy of the parser with the filter (\<^verbatim>\<open>AppLayout.tsx\<close>): when the first line is not
  blank, it builds exactly one record per remaining non-blank line, under the headers of
  the first line.
\<close>

lemma parse_txt_AppLayout_records:
  assumes "\<not> is_blank (hd (text_lines content))"
  shows "parse_txt_AppLayout content
           = Inr (JArr (map (line_to_obj (header_names content)) (remaining_nonblank_lines content)))"
proof -
  obtain first_line rest where sp: "split_on (\<lambda>c. c = CHR 0x0A) content = first_line # rest"
    using split_on_not_Nil [of "\<lambda>c. c = CHR 0x0A" content]
    by (cases "split_on (\<lambda>c. c = CHR 0x0A) content") auto
  with assms have "trim first_line \<noteq> []"
    by (simp add: text_lines_def trim_eq_Nil_iff)
  with sp show ?thesis
    by (simp add: parse_txt_AppLayout_def remaining_nonblank_lines_def text_lines_def
        header_names_def trim_eq_Nil_iff)
qed



text \<open>
  Claim C5. A JSON import file whose content parses to the array with the one object
  Name: Ann, Phone: +1555 yields, after normalization, exactly one accepted record:
  name Ann, empty email, phone +1555. \<^verbatim>\<open>JSON.parse\<close> is the runtime's and enters as the
  parameter \<open>json_parse\<close>.
\<close>

theorem json_import_example:
  assumes "fileExtension (file_name f) = ''json''"
    and "as_text f = Some content"
    and "json_parse env content
           = Inr (JArr [JObj [(''Name'', JStr ''Ann''), (''Phone'', JStr ''+1555'')]])"
  shows "onDrop env (f # fs) st
           = st\<lparr>importError := None,
                importedContacts := [\<lparr>name = JStr ''Ann'', email = JStr '''', phone = JStr ''+1555''\<rparr>],
                importLoading := False\<rparr>"
  using assms
  by (simp add: onDrop_def onload_def processImportedData_def Let_def
      map_item_def nullish_def js_or_def accepted_def)

lemma json_example_ext: "fileExtension ''contacts.JSON'' = ''json''"
  by code_simp

theorem json_import_example_witness:
  \<open>onDrop \<lparr>papa_parse = (\<lambda>s. PapaComplete (JArr [])), xlsx_read = (\<lambda>s. Inl TypeError),
      sheet_to_json = (\<lambda>w :: unit option. Inl TypeError),
      json_parse = (\<lambda>s. if s = ''[{"Name":"Ann","Phone":"+1555"}]''
                         then Inr (JArr [JObj [(''Name'', JStr ''Ann''), (''Phone'', JStr ''+1555'')]])
                         else Inl (LibError ''SyntaxError''))\<rparr>
     [\<lparr>file_name = ''contacts.JSON'', as_text = Some ''[{"Name":"Ann","Phone":"+1555"}]'',
       as_binary = None\<rparr>]
     \<lparr>importedContacts = [], importLoading = False, importError = None\<rparr>
   = \<lparr>importedContacts = [\<lparr>name = JStr ''Ann'', email = JStr '''', phone = JStr ''+1555''\<rparr>],
      importLoading = False, importError = None\<rparr>\<close>
  using json_import_example [of
      \<open>\<lparr>file_name = ''contacts.JSON'', as_text = Some ''[{"Name":"Ann","Phone":"+1555"}]'',
        as_binary = None\<rparr>\<close>
      \<open>''[{"Name":"Ann","Phone":"+1555"}]''\<close>
      \<open>\<lparr>papa_parse = (\<lambda>s. PapaComplete (JArr [])), xlsx_read = (\<lambda>s. Inl TypeError),
        sheet_to_json = (\<lambda>w :: unit option. Inl TypeError),
        json_parse = (\<lambda>s. if s = ''[{"Name":"Ann","Phone":"+1555"}]''
                           then Inr (JArr [JObj [(''Name'', JStr ''Ann''), (''Phone'', JStr ''+1555'')]])
                           else Inl (LibError ''SyntaxError''))\<rparr>\<close>
      \<open>[]\<close> \<open>\<lparr>importedContacts = [], importLoading = False, importError = None\<rparr>\<close>]
  by (simp add: json_example_ext)

section \<open>Properties of the screens\<close>

text \<open>
  Claim C7. For every contact-save attempt in which the email field and the phone field
  are both empty, \<^verbatim>\<open>handleSaveContact\<close> sets a validation error (the missing name, or the
  missing email or phone) and returns: no request is issued, the store is as it was,
  and so is the contact list on screen.
\<close>

theorem handleSaveContact_validation:
  assumes "contactEmail ui = ''''" and "contactPhone ui = ''''"
  shows "\<exists>e. is_validation_error e
           \<and> handleSaveContact be user (ui, n) = (ui\<lparr>error := Some e\<rparr>, n)
           \<and> issued (snd (handleSaveContact be user (ui, n))) = issued n
           \<and> store (snd (handleSaveContact be user (ui, n))) = store n
           \<and> contacts (fst (handleSaveContact be user (ui, n))) = contacts ui"
proof (cases "contactName ui = ''''")
  case True
  then have "handleSaveContact be user (ui, n) = (ui\<lparr>error := Some ContactNameRequired\<rparr>, n)"
    by (simp add: handleSaveContact_def)
  then show ?thesis
    by (intro exI [of _ ContactNameRequired]) simp
next
  case False
  with assms have "handleSaveContact be user (ui, n) = (ui\<lparr>error := Some EmailOrPhoneRequired\<rparr>, n)"
    by (simp add: handleSaveContact_def)
  then show ?thesis
    by (intro exI [of _ EmailOrPhoneRequired]) simp
qed

theorem handleSaveContact_validation_witness:
  "handleSaveContact recording_store (Some \<lparr>user_id = ''u1''\<rparr>)
      (initial_contact_state\<lparr>contactName := ''Ann''\<rparr>, idle_net)
     = (initial_contact_state\<lparr>contactName := ''Ann'', error := Some EmailOrPhoneRequired\<rparr>, idle_net)"
  using handleSaveContact_validation
    [of "initial_contact_state\<lparr>contactName := ''Ann''\<rparr>" recording_store
        "Some \<lparr>user_id = ''u1''\<rparr>" idle_net]
  by (simp add: initial_contact_state_def handleSaveContact_def)

text \<open>
  Claim C8. For every delete-user request whose target id is the signed-in user's own
  id, both versions of \<^verbatim>\<open>handleDeleteUser\<close> set the error that one cannot delete one's own
  account and return, whatever the answer to the confirmation would be: no request is
  issued, the store is as it was, and so is the user list.
\<close>

theorem handleDeleteUser_own_account:
  assumes "user = Some u" and "target_id = user_id u"
  shows "handleDeleteUser be user confirmed target_id (ui, n)
           = (ui\<lparr>users_error := Some CannotDeleteOwnAccount\<rparr>, n)
       \<and> handleDeleteUser_profiles be user confirmed target_id (ui, n)
           = (ui\<lparr>users_error := Some CannotDeleteOwnAccount\<rparr>, n)
       \<and> users (ui\<lparr>users_error := Some CannotDeleteOwnAccount\<rparr>) = users ui"
  using assms
  by (simp add: handleDeleteUser_def handleDeleteUser_profiles_def delete_user_with_def)

theorem handleDeleteUser_own_account_witness:
  "handleDeleteUser recording_store (Some \<lparr>user_id = ''u1''\<rparr>) True ''u1''
      (initial_user_state, idle_net)
     = (initial_user_state\<lparr>users_error := Some CannotDeleteOwnAccount\<rparr>, idle_net)
   \<and> handleDeleteUser_profiles recording_store (Some \<lparr>user_id = ''u1''\<rparr>) True ''u1''
      (initial_user_state, idle_net)
     = (initial_user_state\<lparr>users_error := Some CannotDeleteOwnAccount\<rparr>, idle_net)"
  using handleDeleteUser_own_account
    [of "Some \<lparr>user_id = ''u1''\<rparr>" "\<lparr>user_id = ''u1''\<rparr>" "''u1''" recording_store True
        initial_user_state idle_net]
  by simp

lemma call_issued:
  "call be rq n = (rsp, n1) \<Longrightarrow> issued n1 = issued n @ [rq]"
  by (auto simp: call_def split: prod.splits)

lemma fetchContacts_issued:
  "fetchContacts be (ui, n) = (ui', n') \<Longrightarrow> issued n' = issued n @ [SelectContacts]"
  by (auto simp: fetchContacts_def Let_def split: prod.splits option.splits dest: call_issued)

lemma handleSaveImportedContacts_issues_one_batch:
  assumes "importedContacts ui \<noteq> []"
  shows "\<exists>batch rest.
           issued (snd (handleSaveImportedContacts be user (ui, n)))
             = issued n @ InsertContacts batch # rest
         \<and> (rest = [] \<or> rest = [SelectContacts])
         \<and> length batch = length (importedContacts ui)
         \<and> (\<forall>i. i < length batch \<longrightarrow>
               created_by (batch ! i) = map_option user_id user
               \<and> name (batch ! i) = name (importedContacts ui ! i)
               \<and> email (batch ! i) = email (importedContacts ui ! i)
               \<and> phone (batch ! i) = phone (importedContacts ui ! i))"
proof -
  define batch where "batch =
    map (\<lambda>contact. \<lparr>name = name contact, email = email contact, phone = phone contact,
                     created_by = map_option user_id user\<rparr>) (importedContacts ui)"
  obtain rsp n1 where c: "call be (InsertContacts batch) n = (rsp, n1)"
    by (cases "call be (InsertContacts batch) n")
  from call_issued [OF c] have n1: "issued n1 = issued n @ [InsertContacts batch]" .
  have "\<exists>rest. issued (snd (handleSaveImportedContacts be user (ui, n)))
             = issued n @ InsertContacts batch # rest \<and> (rest = [] \<or> rest = [SelectContacts])"
  proof (cases "rsp_error rsp")
    case (Some message)
    with assms c n1 show ?thesis
      by (simp add: handleSaveImportedContacts_def Let_def batch_def [symmetric])
  next
    case None
    obtain ui3 n2 where f: "fetchContacts be
        (ui\<lparr>importLoading := True, success := Some (ContactsImported (length (importedContacts ui))),
            importedContacts := []\<rparr>, n1) = (ui3, n2)"
      by (cases "fetchContacts be
        (ui\<lparr>importLoading := True, success := Some (ContactsImported (length (importedContacts ui))),
            importedContacts := []\<rparr>, n1)")
    from fetchContacts_issued [OF f] n1
    have "issued n2 = issued n @ [InsertContacts batch, SelectContacts]" by simp
    with assms c None f show ?thesis
      by (simp add: handleSaveImportedContacts_def Let_def batch_def [symmetric])
  qed
  moreover have "length batch = length (importedContacts ui)"
    by (simp add: batch_def)
  moreover have "\<forall>i. i < length batch \<longrightarrow>
               created_by (batch ! i) = map_option user_id user
               \<and> name (batch ! i) = name (importedContacts ui ! i)
               \<and> email (batch ! i) = email (importedContacts ui ! i)
               \<and> phone (batch ! i) = phone (importedContacts ui ! i)"
    by (simp add: batch_def)
  ultimately show ?thesis by blast
qed

text \<open>
  Claim C3. For every accepted record list, every actor and every store, each run of
  the bulk importer that the component can start (a click on the import button, which
  exists only while the list is not empty) issues exactly one insert, of one batch that
  holds, place by place, one record per accepted record with \<open>created_by\<close> the actor's id
  and the name, email and phone unchanged; the only other request is the re-read of the
  contacts after a successful insert. The same holds of \<^verbatim>\<open>handleSaveImportedContacts\<close>
  itself on every non-empty list; on the empty list, which no click can hand it, its
  guard reports that there is nothing to import and issues nothing.
\<close>

theorem bulk_import_single_batch:
  "(\<forall>r. importButton_onClick be user (ui, n) = Some r \<longrightarrow>
      (\<exists>batch rest.
           issued (snd r) = issued n @ InsertContacts batch # rest
         \<and> (rest = [] \<or> rest = [SelectContacts])
         \<and> length batch = length (importedContacts ui)
         \<and> (\<forall>i. i < length batch \<longrightarrow>
               created_by (batch ! i) = map_option user_id user
               \<and> name (batch ! i) = name (importedContacts ui ! i)
               \<and> email (batch ! i) = email (importedContacts ui ! i)
               \<and> phone (batch ! i) = phone (importedContacts ui ! i))))
   \<and> (importButton_onClick be user (ui, n) = None
        \<longleftrightarrow> importedContacts ui = [] \<or> importLoading ui)
   \<and> (importedContacts ui \<noteq> [] \<longrightarrow>
      (\<exists>batch rest.
           issued (snd (handleSaveImportedContacts be user (ui, n)))
             = issued n @ InsertContacts batch # rest
         \<and> (rest = [] \<or> rest = [SelectContacts])
         \<and> length batch = length (importedContacts ui)
         \<and> (\<forall>i. i < length batch \<longrightarrow>
               created_by (batch ! i) = map_option user_id user
               \<and> name (batch ! i) = name (importedContacts ui ! i)
               \<and> email (batch ! i) = email (importedContacts ui ! i)
               \<and> phone (batch ! i) = phone (importedContacts ui ! i))))
   \<and> (importedContacts ui = [] \<longrightarrow>
        handleSaveImportedContacts be user (ui, n) = (ui\<lparr>importError := Some NoValidContacts\<rparr>, n))"
proof (intro conjI allI impI)
  fix r
  assume click: "importButton_onClick be user (ui, n) = Some r"
  then have ne: "importedContacts ui \<noteq> []"
    and r: "r = handleSaveImportedContacts be user (ui, n)"
    by (auto simp: importButton_onClick_def split: if_splits)
  from handleSaveImportedContacts_issues_one_batch [OF ne, of be user n]
  show "\<exists>batch rest.
           issued (snd r) = issued n @ InsertContacts batch # rest
         \<and> (rest = [] \<or> rest = [SelectContacts])
         \<and> length batch = length (importedContacts ui)
         \<and> (\<forall>i. i < length batch \<longrightarrow>
               created_by (batch ! i) = map_option user_id user
               \<and> name (batch ! i) = name (importedContacts ui ! i)
               \<and> email (batch ! i) = email (importedContacts ui ! i)
               \<and> phone (batch ! i) = phone (importedContacts ui ! i))"
    unfolding r .
next
  show "importButton_onClick be user (ui, n) = None
        \<longleftrightarrow> importedContacts ui = [] \<or> importLoading ui"
    by (simp add: importButton_onClick_def)
next
  assume "importedContacts ui \<noteq> []"
  then show "\<exists>batch rest.
           issued (snd (handleSaveImportedContacts be user (ui, n)))
             = issued n @ InsertContacts batch # rest
         \<and> (rest = [] \<or> rest = [SelectContacts])
         \<and> length batch = length (importedContacts ui)
         \<and> (\<forall>i. i < length batch \<longrightarrow>
               created_by (batch ! i) = map_option user_id user
               \<and> name (batch ! i) = name (importedContacts ui ! i)
               \<and> email (batch ! i) = email (importedContacts ui ! i)
               \<and> phone (batch ! i) = phone (importedContacts ui ! i))"
    by (rule handleSaveImportedContacts_issues_one_batch)
next
  assume "importedContacts ui = []"
  then show "handleSaveImportedContacts be user (ui, n)
               = (ui\<lparr>importError := Some NoValidContacts\<rparr>, n)"
    by (simp add: handleSaveImportedContacts_def)
qed

theorem bulk_import_single_batch_witness:
  "importButton_onClick recording_store (Some \<lparr>user_id = ''u1''\<rparr>) (initial_contact_state, idle_net)
     = None
   \<and> (\<exists>r. importButton_onClick recording_store (Some \<lparr>user_id = ''u1''\<rparr>)
          (initial_contact_state\<lparr>importedContacts :=
             [\<lparr>name = JStr ''Ann'', email = JStr '''', phone = JStr ''+1555''\<rparr>]\<rparr>, idle_net) = Some r
        \<and> issued (snd r)
            = [InsertContacts [\<lparr>name = JStr ''Ann'', email = JStr '''', phone = JStr ''+1555'',
                                 created_by = Some ''u1''\<rparr>],
               SelectContacts])"
  using
    bulk_import_single_batch [of recording_store "Some \<lparr>user_id = ''u1''\<rparr>"
        initial_contact_state idle_net]
    bulk_import_single_batch [of recording_store "Some \<lparr>user_id = ''u1''\<rparr>"
        "initial_contact_state\<lparr>importedContacts :=
          [\<lparr>name = JStr ''Ann'', email = JStr '''', phone = JStr ''+1555''\<rparr>]\<rparr>" idle_net]
  by (simp add: importButton_onClick_def handleSaveImportedContacts_def fetchContacts_def call_def
      recording_store_def idle_net_def initial_contact_state_def Let_def)

section \<open>Properties of the dashboard\<close>

lemma length_filter_count_via:
  "length (filter (\<lambda>msg. channel \<in> set (sent_via msg)) ms) = count_via channel ms"
  by (induction ms) simp_all

lemma newest_first_take: "newest_first ms \<Longrightarrow> newest_first (take k ms)"
  unfolding newest_first_def by (rule sorted_wrt_take)

lemma newest_first_take_drop:
  assumes "newest_first ms" and "r \<in> set (take k ms)" and "m \<in> set (drop k ms)"
  shows "sent_at m \<le> sent_at r"
proof -
  from assms(1) have "sorted_wrt (\<lambda>a b. sent_at b \<le> sent_at a) (take k ms @ drop k ms)"
    by (simp add: newest_first_def)
  then show ?thesis using assms(2,3)
    by (simp only: sorted_wrt_append)
qed

lemma fetchDashboardData_loaded:
  assumes "contacts_read reads = Inr contactsCount"
    and "messages_read reads = Inr (Some ms)"
    and "isAdmin \<longrightarrow> (\<exists>usersCount. profiles_read reads = Inr usersCount)"
  shows "emailsSent (stats (fst (fetchDashboardData isAdmin reads st))) = count_via ''email'' ms
       \<and> whatsappSent (stats (fst (fetchDashboardData isAdmin reads st))) = count_via ''whatsapp'' ms
       \<and> totalMessages (stats (fst (fetchDashboardData isAdmin reads st))) = length ms
       \<and> recentMessages (fst (fetchDashboardData isAdmin reads st)) = take 5 ms
       \<and> snd (fetchDashboardData isAdmin reads st) ! 1 = SelectMessagesBySentAtDesc
       \<and> (newest_first ms \<longrightarrow>
            newest_first (recentMessages (fst (fetchDashboardData isAdmin reads st)))
            \<and> (\<forall>r m. r \<in> set (recentMessages (fst (fetchDashboardData isAdmin reads st)))
                   \<and> m \<in> set (drop 5 ms) \<longrightarrow> sent_at m \<le> sent_at r))"
proof (cases isAdmin)
  case True
  with assms(3) obtain usersCount where "profiles_read reads = Inr usersCount" by blast
  with True assms(1,2) show ?thesis
    by (auto simp: fetchDashboardData_def Let_def length_filter_count_via
        intro: newest_first_take newest_first_take_drop)
next
  case False
  with assms(1,2) show ?thesis
    by (auto simp: fetchDashboardData_def Let_def length_filter_count_via
        intro: newest_first_take newest_first_take_drop)
qed

text \<open>
  Claim C6, as the program has it. For every fetched message set of a dashboard load in
  which every read succeeds (the contact count, the messages and, for an admin, the user
  count), the email count is the number of messages whose \<open>sent_via\<close> contains email, the
  WhatsApp count the number whose \<open>sent_via\<close> contains whatsapp, the total the length of
  the set, and the recent messages are the first five of the set as fetched, in the
  order asked of the store, by send time descending: when the set arrives in that order,
  they are in that order and no message left out is newer than one of them. When a read
  fails, the counts and the recent messages stay as they were.
\<close>

theorem fetchDashboardData_counts:
  "(every_read_succeeds isAdmin reads \<and> messages_read reads = Inr (Some ms) \<longrightarrow>
       emailsSent (stats (fst (fetchDashboardData isAdmin reads st))) = count_via ''email'' ms
       \<and> whatsappSent (stats (fst (fetchDashboardData isAdmin reads st))) = count_via ''whatsapp'' ms
       \<and> totalMessages (stats (fst (fetchDashboardData isAdmin reads st))) = length ms
       \<and> recentMessages (fst (fetchDashboardData isAdmin reads st)) = take 5 ms
       \<and> snd (fetchDashboardData isAdmin reads st) ! 1 = SelectMessagesBySentAtDesc
       \<and> (newest_first ms \<longrightarrow>
            newest_first (recentMessages (fst (fetchDashboardData isAdmin reads st)))
            \<and> (\<forall>r m. r \<in> set (recentMessages (fst (fetchDashboardData isAdmin reads st)))
                   \<and> m \<in> set (drop 5 ms) \<longrightarrow> sent_at m \<le> sent_at r)))
   \<and> (\<not> every_read_succeeds isAdmin reads \<longrightarrow>
       stats (fst (fetchDashboardData isAdmin reads st)) = stats st
       \<and> recentMessages (fst (fetchDashboardData isAdmin reads st)) = recentMessages st)"
proof -
  have success: "every_read_succeeds isAdmin reads \<and> messages_read reads = Inr (Some ms) \<longrightarrow>
       emailsSent (stats (fst (fetchDashboardData isAdmin reads st))) = count_via ''email'' ms
       \<and> whatsappSent (stats (fst (fetchDashboardData isAdmin reads st))) = count_via ''whatsapp'' ms
       \<and> totalMessages (stats (fst (fetchDashboardData isAdmin reads st))) = length ms
       \<and> recentMessages (fst (fetchDashboardData isAdmin reads st)) = take 5 ms
       \<and> snd (fetchDashboardData isAdmin reads st) ! 1 = SelectMessagesBySentAtDesc
       \<and> (newest_first ms \<longrightarrow>
            newest_first (recentMessages (fst (fetchDashboardData isAdmin reads st)))
            \<and> (\<forall>r m. r \<in> set (recentMessages (fst (fetchDashboardData isAdmin reads st)))
                   \<and> m \<in> set (drop 5 ms) \<longrightarrow> sent_at m \<le> sent_at r))"
  proof (rule impI)
    assume ok: "every_read_succeeds isAdmin reads \<and> messages_read reads = Inr (Some ms)"
    then obtain contactsCount where c: "contacts_read reads = Inr contactsCount"
      by (cases "contacts_read reads") (auto simp: every_read_succeeds_def)
    from ok have m: "messages_read reads = Inr (Some ms)" by simp
    from ok have p: "isAdmin \<longrightarrow> (\<exists>usersCount. profiles_read reads = Inr usersCount)"
      by (cases "profiles_read reads") (auto simp: every_read_succeeds_def)
    from fetchDashboardData_loaded [OF c m p, of st]
    show "emailsSent (stats (fst (fetchDashboardData isAdmin reads st))) = count_via ''email'' ms
       \<and> whatsappSent (stats (fst (fetchDashboardData isAdmin reads st))) = count_via ''whatsapp'' ms
       \<and> totalMessages (stats (fst (fetchDashboardData isAdmin reads st))) = length ms
       \<and> recentMessages (fst (fetchDashboardData isAdmin reads st)) = take 5 ms
       \<and> snd (fetchDashboardData isAdmin reads st) ! 1 = SelectMessagesBySentAtDesc
       \<and> (newest_first ms \<longrightarrow>
            newest_first (recentMessages (fst (fetchDashboardData isAdmin reads st)))
            \<and> (\<forall>r m. r \<in> set (recentMessages (fst (fetchDashboardData isAdmin reads st)))
                   \<and> m \<in> set (drop 5 ms) \<longrightarrow> sent_at m \<le> sent_at r))" .
  qed
  have failure: "\<not> every_read_succeeds isAdmin reads \<longrightarrow>
       stats (fst (fetchDashboardData isAdmin reads st)) = stats st
       \<and> recentMessages (fst (fetchDashboardData isAdmin reads st)) = recentMessages st"
    by (cases "contacts_read reads"; cases "messages_read reads"; cases "profiles_read reads")
      (auto simp: every_read_succeeds_def fetchDashboardData_def Let_def)
  from success failure show ?thesis by (rule conjI)
qed

theorem fetchDashboardData_counts_witness:
  "emailsSent (stats (fst (fetchDashboardData True
      \<lparr>contacts_read = Inr (Some 3), messages_read = Inr (Some [example_message]),
        profiles_read = Inr (Some 2)\<rparr> initial_dashboard_state))) = 1
   \<and> recentMessages (fst (fetchDashboardData True
      \<lparr>contacts_read = Inr (Some 3), messages_read = Inr (Some [example_message]),
        profiles_read = Inr (Some 2)\<rparr> initial_dashboard_state)) = [example_message]
   \<and> stats (fst (fetchDashboardData True
      \<lparr>contacts_read = Inr (Some 3), messages_read = Inr (Some [example_message]),
        profiles_read = Inl ''permission denied''\<rparr>
      (initial_dashboard_state\<lparr>recentMessages := [example_message]\<rparr>)))
     = stats (initial_dashboard_state\<lparr>recentMessages := [example_message]\<rparr>)
   \<and> recentMessages (fst (fetchDashboardData True
      \<lparr>contacts_read = Inr (Some 3), messages_read = Inr (Some [example_message]),
        profiles_read = Inl ''permission denied''\<rparr>
      (initial_dashboard_state\<lparr>recentMessages := [example_message]\<rparr>))) = [example_message]"
  using
    fetchDashboardData_counts [of True
      "\<lparr>contacts_read = Inr (Some 3), messages_read = Inr (Some [example_message]),
        profiles_read = Inr (Some 2)\<rparr>" "[example_message]" initial_dashboard_state]
    fetchDashboardData_counts [of True
      "\<lparr>contacts_read = Inr (Some 3), messages_read = Inr (Some [example_message]),
        profiles_read = Inl ''permission denied''\<rparr>" "[example_message]"
      "initial_dashboard_state\<lparr>recentMessages := [example_message]\<rparr>"]
  by (simp add: every_read_succeeds_def example_message_def)

text \<open>
  The claim as stated, for every fetched message set, fails when a later read fails: for
  an admin whose user count is refused, the messages are fetched (one of them sent by
  email) and thrown away with the error, and the dashboard keeps the counts it had.
\<close>

theorem fetchDashboardData_failed_read_counterexample:
  "messages_read \<lparr>contacts_read = Inr (Some 3), messages_read = Inr (Some [example_message]),
        profiles_read = Inl ''permission denied''\<rparr> = Inr (Some [example_message])
   \<and> count_via ''email'' [example_message] = 1
   \<and> emailsSent (stats (fst (fetchDashboardData True
      \<lparr>contacts_read = Inr (Some 3), messages_read = Inr (Some [example_message]),
        profiles_read = Inl ''permission denied''\<rparr> initial_dashboard_state))) = 0
   \<and> totalMessages (stats (fst (fetchDashboardData True
      \<lparr>contacts_read = Inr (Some 3), messages_read = Inr (Some [example_message]),
        profiles_read = Inl ''permission denied''\<rparr> initial_dashboard_state))) = 0
   \<and> recentMessages (fst (fetchDashboardData True
      \<lparr>contacts_read = Inr (Some 3), messages_read = Inr (Some [example_message]),
        profiles_read = Inl ''permission denied''\<rparr> initial_dashboard_state)) = []"
  by (simp add: fetchDashboardData_def initial_dashboard_state_def example_message_def)

end
